theory Spec2Isabelle
  imports Complex_Main
begin

section \<open>The simulation loop of ainti.py\<close>

text \<open>
  The simulation of \<^verbatim>\<open>src/ainti.py\<close> (lines 70 to 105) is a recurrence over the days
  \<open>1 .. days_to_simulate\<close> with two running variables, \<open>supply\<close> and
  \<open>cumulative_burn\<close>. The embedding follows the script line by line.

  Numbers. A Python float is a value of \<open>py_float\<close>: a real number, one of the two
  infinities, or NaN. Arithmetic on real numbers is exact: the rounding of binary
  floating point, its overflow and its signed zero are not part of the model (the real
  0 stands for +0.0). Arithmetic with the other values follows IEEE 754, as numpy does:
  line 92 divides by an \<^verbatim>\<open>np.float64\<close>, and a division by zero there returns an infinity
  or NaN and the loop goes on.

  Inputs. The widgets' values and the script's constants (\<open>FIXED_SUPPLY\<close>,
  \<open>burn_rates\<close>) are the fields of a record \<open>config\<close>. \<open>FIXED_SUPPLY\<close> is a Python
  int (line 10), a number of tokens. The yearly price change comes from the slider of
  line 21, which returns a value from -50 to 200: the type \<open>percent\<close>. The
  dictionaries \<open>burn_rates\<close> and \<open>service_volumes\<close> are association lists in
  insertion order.

  Output. The script appends to parallel column lists, one entry per day; the model
  returns the rows, one record per day.
\<close>

subsection \<open>Floats\<close>

datatype py_float = Finite real | Infinity | MinusInfinity | NaN

fun fneg :: "py_float \<Rightarrow> py_float" where
  "fneg (Finite x) = Finite (- x)"
| "fneg Infinity = MinusInfinity"
| "fneg MinusInfinity = Infinity"
| "fneg NaN = NaN"

fun fadd :: "py_float \<Rightarrow> py_float \<Rightarrow> py_float" where
  "fadd (Finite x) (Finite y) = Finite (x + y)"
| "fadd NaN b = NaN"
| "fadd a NaN = NaN"
| "fadd Infinity MinusInfinity = NaN"
| "fadd MinusInfinity Infinity = NaN"
| "fadd Infinity b = Infinity"
| "fadd a Infinity = Infinity"
| "fadd MinusInfinity b = MinusInfinity"
| "fadd a MinusInfinity = MinusInfinity"

definition fsub :: "py_float \<Rightarrow> py_float \<Rightarrow> py_float" where
  "fsub a b = fadd a (fneg b)"

fun is_negative :: "py_float \<Rightarrow> bool" where
  "is_negative (Finite x) = (x < 0)"
| "is_negative MinusInfinity = True"
| "is_negative a = False"

text \<open>
  A product with an infinite factor is NaN when the other factor is 0, and otherwise
  the infinity with the product's sign.
\<close>

fun fmul :: "py_float \<Rightarrow> py_float \<Rightarrow> py_float" where
  "fmul (Finite x) (Finite y) = Finite (x * y)"
| "fmul NaN b = NaN"
| "fmul a NaN = NaN"
| "fmul a b =
     (if a = Finite 0 \<or> b = Finite 0 then NaN
      else if is_negative a \<noteq> is_negative b then MinusInfinity else Infinity)"

text \<open>
  A quotient of real numbers with divisor 0 is NaN for 0 / 0 and otherwise the infinity
  with the dividend's sign; a real number divided by an infinity is 0; an infinity
  divided by a real number is an infinity; an infinity divided by an infinity is NaN.
\<close>

fun fdiv :: "py_float \<Rightarrow> py_float \<Rightarrow> py_float" where
  "fdiv (Finite x) (Finite y) =
     (if y \<noteq> 0 then Finite (x / y)
      else if x = 0 then NaN
      else if x < 0 then MinusInfinity else Infinity)"
| "fdiv NaN b = NaN"
| "fdiv a NaN = NaN"
| "fdiv (Finite x) b = Finite 0"
| "fdiv a (Finite y) = (if is_negative a \<noteq> (y < 0) then MinusInfinity else Infinity)"
| "fdiv a b = NaN"

text \<open>The comparison \<open>a < b\<close>: false whenever one side is NaN.\<close>

fun fless :: "py_float \<Rightarrow> py_float \<Rightarrow> bool" where
  "fless (Finite x) (Finite y) = (x < y)"
| "fless NaN b = False"
| "fless a NaN = False"
| "fless a MinusInfinity = False"
| "fless Infinity b = False"
| "fless a b = True"

definition fle :: "py_float \<Rightarrow> py_float \<Rightarrow> bool" where
  "fle a b \<longleftrightarrow> fless a b \<or> (a = b \<and> a \<noteq> NaN)"

text \<open>Python's \<^verbatim>\<open>max(a, b)\<close> returns \<open>b\<close> if \<open>b > a\<close>, and \<open>a\<close> otherwise.\<close>

definition py_max :: "py_float \<Rightarrow> py_float \<Rightarrow> py_float" where
  "py_max a b = (if fless a b then b else a)"

subsection \<open>Inputs and rows\<close>

datatype error = KeyError

typedef percent = "{x :: real. - 50 \<le> x \<and> x \<le> 200}"
  morphisms percent_value percent
  by (rule exI [of _ 0]) simp

record config =
  initial_price :: real
  price_change_pct :: percent
  days_to_simulate :: int
  FIXED_SUPPLY :: int
  burn_rates :: "(string \<times> real) list"
  service_volumes :: "(string \<times> real) list"

record daily_record =
  day :: int
  price_no_burn :: py_float
  price_with_burn :: py_float
  remaining_supply :: py_float
  cumulative_burned :: py_float
  daily_burned_total :: py_float
  daily_burn_by_service :: "(string \<times> py_float) list"

subsection \<open>The loop\<close>

text \<open>
  Line 73: \<^verbatim>\<open>daily_growth_factor = (1 + price_change_pct / 100) ** (1 / 365)\<close>. The base is
  between 0.5 and 3.
\<close>

definition daily_growth_factor :: "config \<Rightarrow> real" where
  "daily_growth_factor cfg = (1 + percent_value (price_change_pct cfg) / 100) powr (1 / 365)"

text \<open>Line 87: \<^verbatim>\<open>price_no_burn_today * (FIXED_SUPPLY / supply) if supply > 0 else float("inf")\<close>.\<close>

definition price_with_burn_today :: "config \<Rightarrow> py_float \<Rightarrow> py_float \<Rightarrow> py_float" where
  "price_with_burn_today cfg price_no_burn_today supply =
     (if fless (Finite 0) supply
      then fmul price_no_burn_today (fdiv (Finite (real_of_int (FIXED_SUPPLY cfg))) supply)
      else Infinity)"

text \<open>Line 92: \<^verbatim>\<open>burn_amount = (volume * burn_rate) / price_with_burn_today\<close>.\<close>

definition burn_amount :: "real \<Rightarrow> real \<Rightarrow> py_float \<Rightarrow> py_float" where
  "burn_amount volume burn_rate p = fdiv (Finite (volume * burn_rate)) p"

text \<open>
  Lines 89 to 94, the loop over \<^verbatim>\<open>service_volumes.items()\<close>. The accumulator is
  \<open>burned_today_total\<close>; the result also carries the amounts appended to
  \<open>daily_burn_by_service\<close>, in iteration order. \<^verbatim>\<open>burn_rates[service]\<close> raises
  KeyError for a missing key.
\<close>

fun burn_services ::
  "(string \<times> real) list \<Rightarrow> (string \<times> real) list \<Rightarrow> py_float \<Rightarrow> py_float
     \<Rightarrow> error + (py_float \<times> (string \<times> py_float) list)" where
  "burn_services rates [] p burned_today_total = Inr (burned_today_total, [])"
| "burn_services rates ((service, volume) # rest) p burned_today_total =
     (case map_of rates service of
        None \<Rightarrow> Inl KeyError
      | Some burn_rate \<Rightarrow>
          (case burn_services rates rest p
                  (fadd burned_today_total (burn_amount volume burn_rate p)) of
             Inl e \<Rightarrow> Inl e
           | Inr (burned, by_service) \<Rightarrow>
               Inr (burned, (service, burn_amount volume burn_rate p) # by_service)))"

text \<open>
  Lines 86 to 105, one iteration of the day loop, from the running \<open>supply\<close> and
  \<open>cumulative_burn\<close>. The new values of both are the fields \<open>remaining_supply\<close> and
  \<open>cumulative_burned\<close> of the row. \<open>day\<close> is at least 1, so the integer power of
  line 86 is a power with a natural exponent.
\<close>

definition simulate_day :: "config \<Rightarrow> int \<Rightarrow> py_float \<Rightarrow> py_float \<Rightarrow> error + daily_record" where
  "simulate_day cfg d supply cumulative_burn =
     (let price_no_burn_today =
            fmul (Finite (initial_price cfg)) (Finite (daily_growth_factor cfg ^ nat d));
          pwb = price_with_burn_today cfg price_no_burn_today supply
      in case burn_services (burn_rates cfg) (service_volumes cfg) pwb (Finite 0) of
           Inl e \<Rightarrow> Inl e
         | Inr (burned_today_total, by_service) \<Rightarrow>
             Inr \<lparr> day = d,
                   price_no_burn = price_no_burn_today,
                   price_with_burn = pwb,
                   remaining_supply = py_max (fsub supply burned_today_total) (Finite 1),
                   cumulative_burned = fadd cumulative_burn burned_today_total,
                   daily_burned_total = burned_today_total,
                   daily_burn_by_service = by_service \<rparr>)"

text \<open>Line 85, \<^verbatim>\<open>for day in days\<close>.\<close>

fun simulate_days ::
  "config \<Rightarrow> int list \<Rightarrow> py_float \<Rightarrow> py_float \<Rightarrow> error + daily_record list" where
  "simulate_days cfg [] supply cumulative_burn = Inr []"
| "simulate_days cfg (d # days) supply cumulative_burn =
     (case simulate_day cfg d supply cumulative_burn of
        Inl e \<Rightarrow> Inl e
      | Inr r \<Rightarrow>
          (case simulate_days cfg days (remaining_supply r) (cumulative_burned r) of
             Inl e \<Rightarrow> Inl e
           | Inr rs \<Rightarrow> Inr (r # rs)))"

text \<open>
  Lines 70 to 83: \<^verbatim>\<open>days = np.arange(1, days_to_simulate + 1)\<close>, which is empty when
  \<open>days_to_simulate < 1\<close>, \<^verbatim>\<open>supply = FIXED_SUPPLY\<close> and \<^verbatim>\<open>cumulative_burn = 0\<close>.
\<close>

definition simulate :: "config \<Rightarrow> error + daily_record list" where
  "simulate cfg =
     simulate_days cfg [1 .. days_to_simulate cfg]
       (Finite (real_of_int (FIXED_SUPPLY cfg))) (Finite 0)"

subsection \<open>Configurations\<close>

text \<open>
  The domain of the simulation: a positive initial price, a positive fixed supply, at
  least one day, burn rates in \<open>[0, 1]\<close>, volumes that are not negative. The last two
  conjuncts are what lines 49 to 59 establish: \<open>service_volumes\<close> has the keys of
  \<open>burn_rates\<close>, in the same order, and a dictionary has no key twice.
\<close>

definition valid_config :: "config \<Rightarrow> bool" where
  "valid_config cfg \<longleftrightarrow>
     0 < initial_price cfg \<and>
     0 < FIXED_SUPPLY cfg \<and>
     1 \<le> days_to_simulate cfg \<and>
     list_all (\<lambda>(s, r). 0 \<le> r \<and> r \<le> 1) (burn_rates cfg) \<and>
     list_all (\<lambda>(s, v). 0 \<le> v) (service_volumes cfg) \<and>
     map fst (service_volumes cfg) = map fst (burn_rates cfg) \<and>
     distinct (map fst (burn_rates cfg))"

text \<open>
  The running supply at the start of the day of row \<open>i\<close> (rows count from 0), for a
  loop entered with the supply \<open>s0\<close>: \<open>s0\<close> itself for the first row, then the
  \<open>remaining_supply\<close> of the row before.
\<close>

definition supply_before :: "py_float \<Rightarrow> daily_record list \<Rightarrow> nat \<Rightarrow> py_float" where
  "supply_before s0 recs i = (if i = 0 then s0 else remaining_supply (recs ! (i - 1)))"

text \<open>The supply with which the script enters the loop.\<close>

definition initial_supply :: "config \<Rightarrow> py_float" where
  "initial_supply cfg = Finite (real_of_int (FIXED_SUPPLY cfg))"

text \<open>Every configured service has volume 0.\<close>

definition zero_volumes :: "config \<Rightarrow> bool" where
  "zero_volumes cfg \<longleftrightarrow> list_all (\<lambda>(s, v). v = 0) (service_volumes cfg)"

text \<open>
  The per-service columns of a row hold, for each entry of \<open>service_volumes\<close> in order,
  the amount \<open>(volume * burn_rate) / p\<close>, where \<open>p\<close> is the day's price with burn.
\<close>

fun recorded_burns ::
  "(string \<times> real) list \<Rightarrow> (string \<times> real) list \<Rightarrow> py_float \<Rightarrow> (string \<times> py_float) list \<Rightarrow> bool"
  where
  "recorded_burns rates [] p [] = True"
| "recorded_burns rates ((service, volume) # svs) p ((column, amount) # bs) =
     (column = service \<and>
      (case map_of rates service of
         None \<Rightarrow> False
       | Some burn_rate \<Rightarrow> amount = fdiv (Finite (volume * burn_rate)) p) \<and>
      recorded_burns rates svs p bs)"
| "recorded_burns rates svs p bs = False"

text \<open>The sum of a column of amounts, from left to right, as line 93 adds them up.\<close>

definition sum_amounts :: "(string \<times> py_float) list \<Rightarrow> py_float" where
  "sum_amounts bs = foldl fadd (Finite 0) (map snd bs)"

subsection \<open>Concrete configurations and their rows\<close>

text \<open>
  \<open>mixer_config\<close>: one service with burn rate 0.02 and a volume of 25,000 a day, no
  market-driven price change, the script's fixed supply. \<open>mixer_rows\<close> are its rows
  for two days.
\<close>

definition mixer_config :: "int \<Rightarrow> config" where
  "mixer_config n =
     \<lparr> initial_price = 1, price_change_pct = percent 0, days_to_simulate = n,
       FIXED_SUPPLY = 100000000,
       burn_rates = [(''Mixer'', 2 / 100)],
       service_volumes = [(''Mixer'', 25000)] \<rparr>"

definition mixer_rows :: "daily_record list" where
  "mixer_rows =
     [\<lparr> day = 1, price_no_burn = Finite 1, price_with_burn = Finite 1,
        remaining_supply = Finite 99999500, cumulative_burned = Finite 500,
        daily_burned_total = Finite 500,
        daily_burn_by_service = [(''Mixer'', Finite 500)] \<rparr>,
      \<lparr> day = 2, price_no_burn = Finite 1, price_with_burn = Finite (200000 / 199999),
        remaining_supply = Finite (39999600001 / 400),
        cumulative_burned = Finite (399999 / 400),
        daily_burned_total = Finite (199999 / 400),
        daily_burn_by_service = [(''Mixer'', Finite (199999 / 400))] \<rparr>]"

text \<open>
  \<open>clamp_config\<close>: a fixed supply of 100 and one service with burn rate 1, whose
  volume is a parameter. \<open>clamp_rows\<close> are its rows for a volume of 200 and three days.
\<close>

definition clamp_config :: "real \<Rightarrow> int \<Rightarrow> config" where
  "clamp_config volume n =
     \<lparr> initial_price = 1, price_change_pct = percent 0, days_to_simulate = n,
       FIXED_SUPPLY = 100,
       burn_rates = [(''Service'', 1)],
       service_volumes = [(''Service'', volume)] \<rparr>"

definition clamp_rows :: "daily_record list" where
  "clamp_rows =
     [\<lparr> day = 1, price_no_burn = Finite 1, price_with_burn = Finite 1,
        remaining_supply = Finite 1, cumulative_burned = Finite 200,
        daily_burned_total = Finite 200,
        daily_burn_by_service = [(''Service'', Finite 200)] \<rparr>,
      \<lparr> day = 2, price_no_burn = Finite 1, price_with_burn = Finite 100,
        remaining_supply = Finite 1, cumulative_burned = Finite 202,
        daily_burned_total = Finite 2,
        daily_burn_by_service = [(''Service'', Finite 2)] \<rparr>,
      \<lparr> day = 3, price_no_burn = Finite 1, price_with_burn = Finite 100,
        remaining_supply = Finite 1, cumulative_burned = Finite 204,
        daily_burned_total = Finite 2,
        daily_burn_by_service = [(''Service'', Finite 2)] \<rparr>]"

text \<open>
  \<open>default_config\<close>: the four services of the script with their default volumes
  (lines 28 to 40), without market-driven price change. \<open>default_rows\<close> are its rows
  for two days.
\<close>

definition default_config :: "int \<Rightarrow> config" where
  "default_config n =
     \<lparr> initial_price = 1, price_change_pct = percent 0, days_to_simulate = n,
       FIXED_SUPPLY = 100000000,
       burn_rates = [(''Mixer'', 2 / 100), (''Merch-Shop'', 2 / 10), (''eSIM'', 2 / 100),
                     (''Gift Card'', 2 / 100)],
       service_volumes = [(''Mixer'', 25000), (''Merch-Shop'', 5000), (''eSIM'', 10000),
                          (''Gift Card'', 20000)] \<rparr>"

definition default_rows :: "daily_record list" where
  "default_rows =
     [\<lparr> day = 1, price_no_burn = Finite 1, price_with_burn = Finite 1,
        remaining_supply = Finite 99997900, cumulative_burned = Finite 2100,
        daily_burned_total = Finite 2100,
        daily_burn_by_service =
          [(''Mixer'', Finite 500), (''Merch-Shop'', Finite 1000), (''eSIM'', Finite 200),
           (''Gift Card'', Finite 400)] \<rparr>,
      \<lparr> day = 2, price_no_burn = Finite 1, price_with_burn = Finite (1000000 / 999979),
        remaining_supply = Finite (999958000441 / 10000),
        cumulative_burned = Finite (41999559 / 10000),
        daily_burned_total = Finite (20999559 / 10000),
        daily_burn_by_service =
          [(''Mixer'', Finite (999979 / 2000)), (''Merch-Shop'', Finite (999979 / 1000)),
           (''eSIM'', Finite (999979 / 5000)), (''Gift Card'', Finite (999979 / 2500))] \<rparr>]"

text \<open>
  \<open>growth_config\<close>: the default services for a year, at an initial price of 3 and a
  yearly price change of 100 percent. \<open>idle_config\<close>: a service without volume; the
  yearly price change and the number of days are parameters.
\<close>

definition growth_config :: config where
  "growth_config =
     \<lparr> initial_price = 3, price_change_pct = percent 100, days_to_simulate = 365,
       FIXED_SUPPLY = 100000000,
       burn_rates = [(''Mixer'', 2 / 100), (''Merch-Shop'', 2 / 10), (''eSIM'', 2 / 100),
                     (''Gift Card'', 2 / 100)],
       service_volumes = [(''Mixer'', 25000), (''Merch-Shop'', 5000), (''eSIM'', 10000),
                          (''Gift Card'', 20000)] \<rparr>"

definition idle_config :: "real \<Rightarrow> int \<Rightarrow> config" where
  "idle_config pct n =
     \<lparr> initial_price = 3, price_change_pct = percent pct, days_to_simulate = n,
       FIXED_SUPPLY = 100000000,
       burn_rates = [(''Mixer'', 2 / 100)],
       service_volumes = [(''Mixer'', 0)] \<rparr>"

section \<open>Properties of the loops\<close>

subsection \<open>Floats and inputs\<close>

lemma fle_Finite [simp]: "fle (Finite x) (Finite y) \<longleftrightarrow> x \<le> y"
  by (auto simp: fle_def)

lemma py_max_Finite [simp]: "py_max (Finite x) (Finite y) = Finite (max x y)"
  by (simp add: py_max_def max_def)

lemma fsub_Finite [simp]: "fsub (Finite x) (Finite y) = Finite (x - y)"
  by (simp add: fsub_def)

lemma percent_value_range: "- 50 \<le> percent_value p \<and> percent_value p \<le> 200"
  using percent_value [of p] by simp

lemma percent_value_percent: "- 50 \<le> x \<Longrightarrow> x \<le> 200 \<Longrightarrow> percent_value (percent x) = x"
  by (simp add: percent_inverse)

lemma daily_growth_factor_pos: "0 < daily_growth_factor cfg"
proof -
  from percent_value_range [of "price_change_pct cfg"]
  have "0 < 1 + percent_value (price_change_pct cfg) / 100" by simp
  then show ?thesis by (simp add: daily_growth_factor_def)
qed

subsection \<open>Unfolding one step\<close>

lemma simulate_dayE:
  assumes "simulate_day cfg d s c = Inr r"
  obtains b bs where
    "burn_services (burn_rates cfg) (service_volumes cfg) (price_with_burn r) (Finite 0) = Inr (b, bs)"
    "day r = d"
    "price_no_burn r = Finite (initial_price cfg * daily_growth_factor cfg ^ nat d)"
    "price_with_burn r = price_with_burn_today cfg (price_no_burn r) s"
    "remaining_supply r = py_max (fsub s b) (Finite 1)"
    "cumulative_burned r = fadd c b"
    "daily_burned_total r = b"
    "daily_burn_by_service r = bs"
  using assms unfolding simulate_day_def Let_def
  by (auto split: sum.splits prod.splits)

lemma simulate_days_ConsE:
  assumes "simulate_days cfg (d # ds) s c = Inr recs"
  obtains r rs where
    "recs = r # rs"
    "simulate_day cfg d s c = Inr r"
    "simulate_days cfg ds (remaining_supply r) (cumulative_burned r) = Inr rs"
  using assms by (auto split: sum.splits)

subsection \<open>The loop over the services\<close>

lemma burn_services_ConsE:
  assumes "burn_services rates ((s, v) # svs) p t = Inr (b, bs)"
  obtains r bs' where
    "map_of rates s = Some r"
    "burn_services rates svs p (fadd t (burn_amount v r p)) = Inr (b, bs')"
    "bs = (s, burn_amount v r p) # bs'"
  using assms by (auto split: option.splits sum.splits prod.splits)

lemma burn_services_sum:
  "burn_services rates svs p t = Inr (b, bs) \<Longrightarrow>
     b = foldl fadd t (map snd bs) \<and> map fst bs = map fst svs"
proof (induction svs arbitrary: t b bs)
  case Nil
  then show ?case by simp
next
  case (Cons sv svs)
  obtain s v where sv: "sv = (s, v)" by (cases sv)
  from Cons.prems obtain r bs' where
    rec: "burn_services rates svs p (fadd t (burn_amount v r p)) = Inr (b, bs')"
    and res: "bs = (s, burn_amount v r p) # bs'"
    unfolding sv by (rule burn_services_ConsE)
  from Cons.IH [OF rec] res sv show ?case by simp
qed

lemma burn_services_recorded:
  "burn_services rates svs p t = Inr (b, bs) \<Longrightarrow> recorded_burns rates svs p bs"
proof (induction svs arbitrary: t b bs)
  case Nil
  then show ?case by auto
next
  case (Cons sv svs)
  obtain s v where sv: "sv = (s, v)" by (cases sv)
  from Cons.prems obtain r bs' where
    r: "map_of rates s = Some r"
    and rec: "burn_services rates svs p (fadd t (burn_amount v r p)) = Inr (b, bs')"
    and res: "bs = (s, burn_amount v r p) # bs'"
    unfolding sv by (rule burn_services_ConsE)
  from Cons.IH [OF rec] res sv r show ?case by (simp add: burn_amount_def)
qed

lemma burn_services_finite:
  assumes "0 < q"
    and "list_all (\<lambda>(s, r). 0 \<le> r \<and> r \<le> 1) rates"
    and "list_all (\<lambda>(s, v). 0 \<le> v) svs"
    and "burn_services rates svs (Finite q) (Finite t) = Inr (b, bs)"
  shows "\<exists>x. b = Finite x \<and> t \<le> x"
  using assms(3,4)
proof (induction svs arbitrary: t b bs)
  case Nil
  then show ?case by auto
next
  case (Cons sv svs)
  obtain s v where sv: "sv = (s, v)" by (cases sv)
  from Cons.prems(2) obtain r bs' where
    r: "map_of rates s = Some r"
    and rec: "burn_services rates svs (Finite q) (fadd (Finite t) (burn_amount v r (Finite q))) = Inr (b, bs')"
    unfolding sv by (rule burn_services_ConsE)
  from r have "(s, r) \<in> set rates" by (rule map_of_SomeD)
  with assms(2) have "0 \<le> r" by (auto simp: list_all_iff)
  moreover from Cons.prems(1) sv have "0 \<le> v" and svs: "list_all (\<lambda>(s, v). 0 \<le> v) svs" by auto
  ultimately have a: "0 \<le> (v * r) / q" using assms(1) by simp
  from assms(1) have "fadd (Finite t) (burn_amount v r (Finite q)) = Finite (t + (v * r) / q)"
    by (simp add: burn_amount_def)
  with rec have "burn_services rates svs (Finite q) (Finite (t + (v * r) / q)) = Inr (b, bs')"
    by simp
  from Cons.IH [OF svs this] obtain x where "b = Finite x" "t + (v * r) / q \<le> x" by blast
  with a show ?case by auto
qed

lemma burn_services_zero:
  assumes "q \<noteq> 0"
    and "list_all (\<lambda>(s, v). v = 0) svs"
    and "burn_services rates svs (Finite q) (Finite t) = Inr (b, bs)"
  shows "b = Finite t"
  using assms(2,3)
proof (induction svs arbitrary: b bs)
  case Nil
  then show ?case by simp
next
  case (Cons sv svs)
  obtain s v where sv: "sv = (s, v)" by (cases sv)
  from Cons.prems(2) obtain r bs' where
    rec: "burn_services rates svs (Finite q) (fadd (Finite t) (burn_amount v r (Finite q))) = Inr (b, bs')"
    unfolding sv by (rule burn_services_ConsE)
  from Cons.prems(1) sv have "v = 0" and svs: "list_all (\<lambda>(s, v). v = 0) svs" by auto
  with assms(1) have "fadd (Finite t) (burn_amount v r (Finite q)) = Finite t"
    by (simp add: burn_amount_def)
  with rec have "burn_services rates svs (Finite q) (Finite t) = Inr (b, bs')" by simp
  from Cons.IH [OF svs this] show ?case .
qed

lemma burn_services_total:
  assumes "set (map fst svs) \<subseteq> set (map fst rates)"
  shows "\<exists>b bs. burn_services rates svs p t = Inr (b, bs)"
  using assms
proof (induction svs arbitrary: t)
  case Nil
  then show ?case by simp
next
  case (Cons sv svs)
  obtain s v where sv: "sv = (s, v)" by (cases sv)
  with Cons.prems have "s \<in> fst ` set rates" by auto
  then obtain r where r: "map_of rates s = Some r"
    by (metis domD dom_map_of_conv_image_fst)
  from Cons.prems have "set (map fst svs) \<subseteq> set (map fst rates)" by auto
  from Cons.IH [OF this] obtain b bs where
    "burn_services rates svs p (fadd t (burn_amount v r p)) = Inr (b, bs)"
    by blast
  with r sv show ?case by simp
qed

lemma fle_trans: "fle a b \<Longrightarrow> fle b c \<Longrightarrow> fle a c"
  by (cases a; cases b; cases c) (auto simp: fle_def)

subsection \<open>The loop over the days\<close>

text \<open>
  The rows of a run, one by one: each row is computed from the supply and the cumulative
  burn that the row before left behind.
\<close>

lemma simulate_days_day:
  "simulate_days cfg ds s c = Inr recs \<Longrightarrow> map day recs = ds"
proof (induction ds arbitrary: s c recs)
  case Nil
  then show ?case by simp
next
  case (Cons d ds)
  from Cons.prems obtain r rs where recs: "recs = r # rs"
    and r: "simulate_day cfg d s c = Inr r"
    and rs: "simulate_days cfg ds (remaining_supply r) (cumulative_burned r) = Inr rs"
    by (rule simulate_days_ConsE)
  from r have "day r = d" by (rule simulate_dayE)
  with Cons.IH [OF rs] recs show ?case by simp
qed

lemma simulate_days_row:
  assumes "simulate_days cfg ds s c = Inr recs" and "i < length recs"
  shows "price_no_burn (recs ! i) =
       Finite (initial_price cfg * daily_growth_factor cfg ^ nat (ds ! i)) \<and>
     price_with_burn (recs ! i) =
       price_with_burn_today cfg (price_no_burn (recs ! i)) (supply_before s recs i) \<and>
     burn_services (burn_rates cfg) (service_volumes cfg) (price_with_burn (recs ! i)) (Finite 0) =
       Inr (daily_burned_total (recs ! i), daily_burn_by_service (recs ! i)) \<and>
     remaining_supply (recs ! i) =
       py_max (fsub (supply_before s recs i) (daily_burned_total (recs ! i))) (Finite 1) \<and>
     cumulative_burned (recs ! i) =
       fadd (if i = 0 then c else cumulative_burned (recs ! (i - 1)))
         (daily_burned_total (recs ! i))"
  using assms
proof (induction ds arbitrary: s c recs i)
  case Nil
  then show ?case by simp
next
  case (Cons d ds)
  from Cons.prems(1) obtain r rs where recs: "recs = r # rs"
    and r: "simulate_day cfg d s c = Inr r"
    and rs: "simulate_days cfg ds (remaining_supply r) (cumulative_burned r) = Inr rs"
    by (rule simulate_days_ConsE)
  show ?case
  proof (cases i)
    case 0
    from r show ?thesis
      by (rule simulate_dayE) (simp add: recs 0 supply_before_def)
  next
    case (Suc k)
    with Cons.prems(2) recs have k: "k < length rs" by simp
    have sb: "supply_before (remaining_supply r) rs k = supply_before s recs i"
      by (cases k) (simp_all add: supply_before_def recs Suc)
    have cb: "(if k = 0 then cumulative_burned r else cumulative_burned (rs ! (k - 1))) =
              cumulative_burned (recs ! (i - 1))"
      by (cases k) (simp_all add: recs Suc)
    have nth: "recs ! i = rs ! k" by (simp add: recs Suc)
    have e: "(if i = 0 then c else cumulative_burned (recs ! (i - 1))) =
             cumulative_burned (recs ! (i - 1))"
      by (simp add: Suc)
    have d: "(d # ds) ! i = ds ! k" by (simp add: Suc)
    from Cons.IH [OF rs k] show ?thesis
      unfolding sb cb e nth d .
  qed
qed

text \<open>
  In a valid configuration every number of a row is a real number: the supply at the
  start of the day is positive, the price with burn is positive, the day's burn is not
  negative.
\<close>

lemma row_values:
  assumes "valid_config cfg"
    and "simulate_days cfg ds (Finite s0) (Finite c0) = Inr recs"
    and "0 < s0" and "i < length recs"
  shows "\<exists>x b c.
     supply_before (Finite s0) recs i = Finite x \<and> 0 < x \<and>
     price_with_burn (recs ! i) =
       Finite (initial_price cfg * daily_growth_factor cfg ^ nat (ds ! i) *
         (real_of_int (FIXED_SUPPLY cfg) / x)) \<and>
     daily_burned_total (recs ! i) = Finite b \<and> 0 \<le> b \<and>
     remaining_supply (recs ! i) = Finite (max (x - b) 1) \<and>
     (if i = 0 then Finite c0 else cumulative_burned (recs ! (i - 1))) = Finite c \<and>
     cumulative_burned (recs ! i) = Finite (c + b)"
  using assms(4)
proof (induction i)
  case 0
  show ?case
  proof -
    have sb: "supply_before (Finite s0) recs 0 = Finite s0" by (simp add: supply_before_def)
    note row = simulate_days_row [OF assms(2) 0, unfolded sb]
    let ?p = "initial_price cfg * daily_growth_factor cfg ^ nat (ds ! 0)"
    let ?q = "?p * (real_of_int (FIXED_SUPPLY cfg) / s0)"
    from assms(1) have ip: "0 < initial_price cfg" and F: "0 < real_of_int (FIXED_SUPPLY cfg)"
      by (simp_all add: valid_config_def)
    from ip daily_growth_factor_pos [of cfg] have p: "0 < ?p" by simp
    with F assms(3) have q: "0 < ?q" by simp
    from row assms(3) have pw: "price_with_burn (recs ! 0) = Finite ?q"
      by (simp add: price_with_burn_today_def)
    from row have bs: "burn_services (burn_rates cfg) (service_volumes cfg) (Finite ?q) (Finite 0) =
       Inr (daily_burned_total (recs ! 0), daily_burn_by_service (recs ! 0))"
      unfolding pw by blast
    from assms(1) have "list_all (\<lambda>(s, r). 0 \<le> r \<and> r \<le> 1) (burn_rates cfg)"
      and "list_all (\<lambda>(s, v). 0 \<le> v) (service_volumes cfg)"
      by (simp_all add: valid_config_def)
    from burn_services_finite [OF q this bs] obtain b where
      b: "daily_burned_total (recs ! 0) = Finite b" "0 \<le> b" by blast
    from row b have "remaining_supply (recs ! 0) = Finite (max (s0 - b) 1)"
      "cumulative_burned (recs ! 0) = Finite (c0 + b)"
      by simp_all
    with sb assms(3) pw b show ?thesis by simp
  qed
next
  case (Suc i)
  then have i: "i < length recs" by simp
  from Suc.IH [OF i] obtain x' b' c' where
    prev: "remaining_supply (recs ! i) = Finite (max (x' - b') 1)"
      "cumulative_burned (recs ! i) = Finite (c' + b')"
    by blast
  let ?x = "max (x' - b') 1"
  have sb: "supply_before (Finite s0) recs (Suc i) = Finite ?x"
    by (simp add: supply_before_def prev)
  have x: "0 < ?x" by simp
  note row = simulate_days_row [OF assms(2) Suc.prems, unfolded sb]
  let ?p = "initial_price cfg * daily_growth_factor cfg ^ nat (ds ! Suc i)"
  let ?q = "?p * (real_of_int (FIXED_SUPPLY cfg) / ?x)"
  from assms(1) have ip: "0 < initial_price cfg" and F: "0 < real_of_int (FIXED_SUPPLY cfg)"
    by (simp_all add: valid_config_def)
  from ip daily_growth_factor_pos [of cfg] have p: "0 < ?p" by simp
  from F x have "0 < real_of_int (FIXED_SUPPLY cfg) / ?x" by (rule divide_pos_pos)
  with p have q: "0 < ?q" by (rule mult_pos_pos)
  from row x have pw: "price_with_burn (recs ! Suc i) = Finite ?q"
    by (simp add: price_with_burn_today_def)
  from row have bs: "burn_services (burn_rates cfg) (service_volumes cfg) (Finite ?q) (Finite 0) =
     Inr (daily_burned_total (recs ! Suc i), daily_burn_by_service (recs ! Suc i))"
    unfolding pw by blast
  from assms(1) have "list_all (\<lambda>(s, r). 0 \<le> r \<and> r \<le> 1) (burn_rates cfg)"
    and "list_all (\<lambda>(s, v). 0 \<le> v) (service_volumes cfg)"
    by (simp_all add: valid_config_def)
  from burn_services_finite [OF q this bs] obtain b where
    b: "daily_burned_total (recs ! Suc i) = Finite b" "0 \<le> b" by blast
  from row b prev have "remaining_supply (recs ! Suc i) = Finite (max (?x - b) 1)"
    "cumulative_burned (recs ! Suc i) = Finite (c' + b' + b)"
    by simp_all
  with sb x pw b prev(2) show ?case by simp
qed

lemma row_bounds:
  assumes "valid_config cfg"
    and "simulate_days cfg ds (Finite s0) (Finite c0) = Inr recs"
    and "1 \<le> s0" and "i < length recs"
  shows "\<exists>x y. supply_before (Finite s0) recs i = Finite x \<and> 1 \<le> x \<and> x \<le> s0 \<and>
           remaining_supply (recs ! i) = Finite y \<and> 1 \<le> y \<and> y \<le> x"
  using assms(4)
proof (induction i)
  case 0
  from assms(3) have "0 < s0" by simp
  from row_values [OF assms(1,2) this 0] obtain x b where
    "supply_before (Finite s0) recs 0 = Finite x" "0 \<le> b"
    "remaining_supply (recs ! 0) = Finite (max (x - b) 1)"
    by blast
  moreover have "supply_before (Finite s0) recs 0 = Finite s0" by (simp add: supply_before_def)
  ultimately show ?case using assms(3) by auto
next
  case (Suc i)
  then have "i < length recs" by simp
  from Suc.IH [OF this] obtain x' y' where
    prev: "remaining_supply (recs ! i) = Finite y'" "1 \<le> y'" "y' \<le> x'" "x' \<le> s0"
    by blast
  have sb: "supply_before (Finite s0) recs (Suc i) = Finite y'"
    by (simp add: supply_before_def prev)
  from assms(3) have "0 < s0" by simp
  from row_values [OF assms(1,2) this Suc.prems] obtain x b where
    "supply_before (Finite s0) recs (Suc i) = Finite x" "0 \<le> b"
    "remaining_supply (recs ! Suc i) = Finite (max (x - b) 1)"
    by blast
  with sb prev show ?case by auto
qed

lemma row_remaining_step:
  assumes "valid_config cfg"
    and "simulate_days cfg ds (Finite s0) (Finite c0) = Inr recs"
    and "1 \<le> s0" and "Suc i < length recs"
  shows "fle (remaining_supply (recs ! Suc i)) (remaining_supply (recs ! i))"
proof -
  from row_bounds [OF assms] obtain x y where
    "supply_before (Finite s0) recs (Suc i) = Finite x"
    "remaining_supply (recs ! Suc i) = Finite y" "y \<le> x"
    by blast
  then show ?thesis by (simp add: supply_before_def)
qed

lemma row_remaining_antimono:
  assumes "valid_config cfg"
    and "simulate_days cfg ds (Finite s0) (Finite c0) = Inr recs"
    and "1 \<le> s0" and "i \<le> j" and "j < length recs"
  shows "fle (remaining_supply (recs ! j)) (remaining_supply (recs ! i))"
  using assms(4,5)
proof (induction j)
  case 0
  from row_bounds [OF assms(1-3) 0(2)] 0(1) show ?case by auto
next
  case (Suc j)
  show ?case
  proof (cases "i = Suc j")
    case True
    from row_bounds [OF assms(1-3) Suc.prems(2)] True show ?thesis by auto
  next
    case False
    with Suc.prems have "i \<le> j" "j < length recs" by simp_all
    from row_remaining_step [OF assms(1-3) Suc.prems(2)] Suc.IH [OF this]
    show ?thesis by (rule fle_trans)
  qed
qed

lemma row_zero_volumes:
  assumes "valid_config cfg" and "zero_volumes cfg"
    and "simulate_days cfg ds (Finite s0) (Finite c0) = Inr recs"
    and "1 \<le> s0" and "i < length recs"
  shows "supply_before (Finite s0) recs i = Finite s0 \<and>
         daily_burned_total (recs ! i) = Finite 0 \<and>
         remaining_supply (recs ! i) = Finite s0"
  using assms(5)
proof (induction i)
  case 0
  have sb: "supply_before (Finite s0) recs 0 = Finite s0" by (simp add: supply_before_def)
  from assms(4) have s0: "0 < s0" by simp
  from row_values [OF assms(1,3) s0 0] obtain x b q where
    v: "supply_before (Finite s0) recs 0 = Finite x"
      "price_with_burn (recs ! 0) = Finite q"
      "daily_burned_total (recs ! 0) = Finite b"
      "remaining_supply (recs ! 0) = Finite (max (x - b) 1)"
    and q: "q = initial_price cfg * daily_growth_factor cfg ^ nat (ds ! 0) *
         (real_of_int (FIXED_SUPPLY cfg) / x)" "0 < x"
    by blast
  from assms(1) have "0 < initial_price cfg" "0 < real_of_int (FIXED_SUPPLY cfg)"
    by (simp_all add: valid_config_def)
  with q daily_growth_factor_pos [of cfg] have "q \<noteq> 0" by simp
  moreover from assms(2) have "list_all (\<lambda>(s, v). v = 0) (service_volumes cfg)"
    by (simp add: zero_volumes_def)
  moreover from simulate_days_row [OF assms(3) 0] have
    "burn_services (burn_rates cfg) (service_volumes cfg) (Finite q) (Finite 0) =
       Inr (daily_burned_total (recs ! 0), daily_burn_by_service (recs ! 0))"
    unfolding v(2) by blast
  ultimately have "daily_burned_total (recs ! 0) = Finite 0" by (rule burn_services_zero)
  with v sb assms(4) show ?case by (simp add: max_def)
next
  case (Suc i)
  then have "i < length recs" by simp
  from Suc.IH [OF this] have sb: "supply_before (Finite s0) recs (Suc i) = Finite s0"
    by (simp add: supply_before_def)
  from assms(4) have s0: "0 < s0" by simp
  from row_values [OF assms(1,3) s0 Suc.prems] obtain x b q where
    v: "supply_before (Finite s0) recs (Suc i) = Finite x"
      "price_with_burn (recs ! Suc i) = Finite q"
      "daily_burned_total (recs ! Suc i) = Finite b"
      "remaining_supply (recs ! Suc i) = Finite (max (x - b) 1)"
    and q: "q = initial_price cfg * daily_growth_factor cfg ^ nat (ds ! Suc i) *
         (real_of_int (FIXED_SUPPLY cfg) / x)" "0 < x"
    by blast
  from assms(1) have "0 < initial_price cfg" "0 < real_of_int (FIXED_SUPPLY cfg)"
    by (simp_all add: valid_config_def)
  with q daily_growth_factor_pos [of cfg] have "q \<noteq> 0" by simp
  moreover from assms(2) have "list_all (\<lambda>(s, v). v = 0) (service_volumes cfg)"
    by (simp add: zero_volumes_def)
  moreover from simulate_days_row [OF assms(3) Suc.prems] have
    "burn_services (burn_rates cfg) (service_volumes cfg) (Finite q) (Finite 0) =
       Inr (daily_burned_total (recs ! Suc i), daily_burn_by_service (recs ! Suc i))"
    unfolding v(2) by blast
  ultimately have "daily_burned_total (recs ! Suc i) = Finite 0" by (rule burn_services_zero)
  with v sb assms(4) show ?case by (simp add: max_def)
qed

subsection \<open>Runs of valid configurations\<close>

lemma simulate_day_total:
  assumes "set (map fst (service_volumes cfg)) \<subseteq> set (map fst (burn_rates cfg))"
  shows "\<exists>r. simulate_day cfg d s c = Inr r"
proof -
  from burn_services_total [OF assms] obtain b bs where
    "burn_services (burn_rates cfg) (service_volumes cfg)
       (price_with_burn_today cfg
          (fmul (Finite (initial_price cfg)) (Finite (daily_growth_factor cfg ^ nat d))) s)
       (Finite 0) = Inr (b, bs)"
    by blast
  then show ?thesis by (simp add: simulate_day_def Let_def)
qed

lemma simulate_days_total:
  assumes "set (map fst (service_volumes cfg)) \<subseteq> set (map fst (burn_rates cfg))"
  shows "\<exists>recs. simulate_days cfg ds s c = Inr recs"
proof (induction ds arbitrary: s c)
  case Nil
  show ?case by simp
next
  case (Cons d ds)
  from simulate_day_total [OF assms] obtain r where
    r: "simulate_day cfg d s c = Inr r" by blast
  from Cons.IH obtain rs where
    "simulate_days cfg ds (remaining_supply r) (cumulative_burned r) = Inr rs"
    by blast
  with r show ?case by simp
qed

lemma simulate_run:
  "simulate cfg = Inr recs \<Longrightarrow>
     simulate_days cfg [1 .. days_to_simulate cfg]
       (Finite (real_of_int (FIXED_SUPPLY cfg))) (Finite 0) = Inr recs"
  by (simp add: simulate_def)

lemma simulate_length:
  assumes "simulate cfg = Inr recs"
  shows "length recs = nat (days_to_simulate cfg)"
proof -
  from simulate_days_day [OF simulate_run [OF assms]]
  have "length (map day recs) = length [1 .. days_to_simulate cfg]" by simp
  then show ?thesis by simp
qed

lemma simulate_total:
  assumes "valid_config cfg"
  shows "\<exists>recs. simulate cfg = Inr recs"
proof -
  from assms have "set (map fst (service_volumes cfg)) \<subseteq> set (map fst (burn_rates cfg))"
    by (simp add: valid_config_def)
  then show ?thesis unfolding simulate_def by (rule simulate_days_total)
qed

lemma valid_supply: "valid_config cfg \<Longrightarrow> 1 \<le> real_of_int (FIXED_SUPPLY cfg)"
  by (simp add: valid_config_def)

subsection \<open>The concrete configurations\<close>

lemma upto_from_1: "[1 .. numeral n] = 1 # [2 .. numeral n]"
  by (simp add: upto_rec1)

lemmas run_defs = simulate_def daily_growth_factor_def simulate_day_def
  price_with_burn_today_def burn_amount_def Let_def upto_from_1 percent_value_percent

lemma mixer_config_valid: "1 \<le> n \<Longrightarrow> valid_config (mixer_config n)"
  by (simp add: valid_config_def mixer_config_def)

lemma mixer_config_run: "simulate (mixer_config 2) = Inr mixer_rows"
  by (simp add: run_defs mixer_config_def mixer_rows_def)

lemma clamp_config_valid: "1 \<le> n \<Longrightarrow> 0 \<le> volume \<Longrightarrow> valid_config (clamp_config volume n)"
  by (simp add: valid_config_def clamp_config_def)

lemma clamp_config_run: "simulate (clamp_config 200 3) = Inr clamp_rows"
  by (simp add: run_defs clamp_config_def clamp_rows_def)

lemma default_config_valid: "1 \<le> n \<Longrightarrow> valid_config (default_config n)"
  by (simp add: valid_config_def default_config_def)

lemma default_config_run: "simulate (default_config 2) = Inr default_rows"
  by (simp add: run_defs default_config_def default_rows_def)

lemma growth_config_valid: "valid_config growth_config"
  by (simp add: valid_config_def growth_config_def)

lemma idle_config_valid: "1 \<le> n \<Longrightarrow> valid_config (idle_config pct n)"
  by (simp add: valid_config_def idle_config_def)

lemma idle_config_zero: "zero_volumes (idle_config pct n)"
  by (simp add: zero_volumes_def idle_config_def)

text \<open>A year of growth at 100 percent doubles the price.\<close>

lemma year_of_growth: "0 < x \<Longrightarrow> (x powr (1 / 365)) ^ 365 = (x :: real)"
proof -
  assume x: "0 < x"
  have "(x powr (1 / 365)) ^ 365 = (x powr (1 / 365)) powr (real (365 :: nat))"
    using x by (subst powr_realpow) simp_all
  also have "\<dots> = x powr (1 / 365 * 365)" by (simp only: powr_powr of_nat_numeral)
  also have "\<dots> = x" using x by simp
  finally show ?thesis .
qed

lemma growth_config_factor: "daily_growth_factor growth_config ^ 365 = 2"
  using year_of_growth [of 2]
  by (simp add: daily_growth_factor_def growth_config_def percent_value_percent)

lemma idle_config_factor: "daily_growth_factor (idle_config 100 n) ^ 365 = 2"
  using year_of_growth [of 2]
  by (simp add: daily_growth_factor_def idle_config_def percent_value_percent)

lemma clamp_config_growth: "daily_growth_factor (clamp_config volume n) = 1"
  by (simp add: daily_growth_factor_def clamp_config_def percent_value_percent)

lemma clamp_config_total: "\<exists>recs. simulate (clamp_config volume n) = Inr recs"
  unfolding simulate_def by (rule simulate_days_total) (simp add: clamp_config_def)

lemma clamp_config_step:
  assumes "simulate (clamp_config volume n) = Inr recs" and "i < length recs"
  shows "burn_services [(''Service'', 1)] [(''Service'', volume)]
           (price_with_burn_today (clamp_config volume n) (Finite 1)
              (supply_before (Finite 100) recs i)) (Finite 0) =
           Inr (daily_burned_total (recs ! i), daily_burn_by_service (recs ! i)) \<and>
         remaining_supply (recs ! i) =
           py_max (fsub (supply_before (Finite 100) recs i) (daily_burned_total (recs ! i)))
             (Finite 1) \<and>
         cumulative_burned (recs ! i) =
           fadd (if i = 0 then Finite 0 else cumulative_burned (recs ! (i - 1)))
             (daily_burned_total (recs ! i))"
proof -
  note row = simulate_days_row [OF simulate_run [OF assms(1)] assms(2)]
  from row have p: "price_no_burn (recs ! i) = Finite 1"
    by (simp add: clamp_config_growth) (simp add: clamp_config_def)
  note pw = row [THEN conjunct2, THEN conjunct1, unfolded p]
  note bs = row [THEN conjunct2, THEN conjunct2, THEN conjunct1, unfolded pw]
  note rest = row [THEN conjunct2, THEN conjunct2, THEN conjunct2]
  from bs rest show ?thesis by (simp add: clamp_config_def)
qed

lemma clamp_config_row:
  assumes "100 < volume" and "simulate (clamp_config volume n) = Inr recs" and "i < length recs"
  shows "remaining_supply (recs ! i) = Finite 1 \<and>
         daily_burned_total (recs ! i) = Finite (if i = 0 then volume else volume / 100) \<and>
         cumulative_burned (recs ! i) = Finite (volume + real i * (volume / 100))"
  using assms(3)
proof (induction i)
  case 0
  note step = clamp_config_step [OF assms(2) 0]
  have "burn_services [(''Service'', 1)] [(''Service'', volume)] (Finite 1) (Finite 0) =
      Inr (Finite volume, [(''Service'', Finite volume)])"
    by (simp add: burn_amount_def)
  with step have total: "daily_burned_total (recs ! 0) = Finite volume"
    by (simp add: supply_before_def price_with_burn_today_def clamp_config_def)
  from step assms(1) show ?case unfolding total by (simp add: supply_before_def)
next
  case (Suc i)
  then have "i < length recs" by simp
  from Suc.IH [OF this] have before: "supply_before (Finite 100) recs (Suc i) = Finite 1"
    and cum: "cumulative_burned (recs ! i) = Finite (volume + real i * (volume / 100))"
    by (simp_all add: supply_before_def)
  note step = clamp_config_step [OF assms(2) Suc.prems, unfolded before]
  have "burn_services [(''Service'', 1)] [(''Service'', volume)] (Finite 100) (Finite 0) =
      Inr (Finite (volume / 100), [(''Service'', Finite (volume / 100))])"
    by (simp add: burn_amount_def)
  with step have total: "daily_burned_total (recs ! Suc i) = Finite (volume / 100)"
    by (simp add: price_with_burn_today_def clamp_config_def)
  from step assms(1) show ?case unfolding total by (simp add: cum field_simps)
qed

section \<open>The claims\<close>

subsection \<open>Prices\<close>

text \<open>
  Claim C1. For a valid configuration and a day \<open>d\<close> from 1 to \<open>days_to_simulate\<close>, the
  run returns its rows, and the row of day \<open>d\<close> (row \<open>d - 1\<close>, counting from 0) has
  \<open>price_no_burn = initial_price * daily_growth_factor ^ d\<close> with
  \<open>daily_growth_factor = (1 + price_change_pct / 100) powr (1 / 365)\<close>, and
  \<open>price_with_burn = price_no_burn * (FIXED_SUPPLY / supply)\<close>, where \<open>supply\<close> is the
  remaining supply of the row before (\<open>FIXED_SUPPLY\<close> on day 1), the supply before the
  day's burn, a positive number.
\<close>

theorem prices_follow_formula:
  assumes "valid_config cfg" and "1 \<le> d" and "d \<le> days_to_simulate cfg"
  shows "\<exists>recs. simulate cfg = Inr recs \<and>
     day (recs ! nat (d - 1)) = d \<and>
     daily_growth_factor cfg =
       (1 + percent_value (price_change_pct cfg) / 100) powr (1 / 365) \<and>
     price_no_burn (recs ! nat (d - 1)) =
       Finite (initial_price cfg * daily_growth_factor cfg ^ nat d) \<and>
     price_with_burn (recs ! nat (d - 1)) =
       fmul (price_no_burn (recs ! nat (d - 1)))
         (fdiv (initial_supply cfg) (supply_before (initial_supply cfg) recs (nat (d - 1)))) \<and>
     (\<exists>s. supply_before (initial_supply cfg) recs (nat (d - 1)) = Finite s \<and> 0 < s \<and>
        price_with_burn (recs ! nat (d - 1)) =
          Finite (initial_price cfg * daily_growth_factor cfg ^ nat d *
            (real_of_int (FIXED_SUPPLY cfg) / s)))"
proof -
  let ?i = "nat (d - 1)"
  from simulate_total [OF assms(1)] obtain recs where sim: "simulate cfg = Inr recs" by blast
  note run = simulate_run [OF sim]
  from simulate_length [OF sim] assms(2,3) have i: "?i < length recs" by simp
  from assms(2,3) have nth: "[1 .. days_to_simulate cfg] ! ?i = d" by simp
  from i have "day (recs ! ?i) = map day recs ! ?i" by (rule nth_map [symmetric])
  with simulate_days_day [OF run] nth have day: "day (recs ! ?i) = d" by simp
  from simulate_days_row [OF run i] have
    p: "price_no_burn (recs ! ?i) = Finite (initial_price cfg * daily_growth_factor cfg ^ nat d)"
    unfolding nth by blast
  from valid_supply [OF assms(1)] have F: "0 < real_of_int (FIXED_SUPPLY cfg)" by simp
  from row_values [OF assms(1) run F i] obtain s where
    s: "supply_before (initial_supply cfg) recs ?i = Finite s" "0 < s"
    and pw: "price_with_burn (recs ! ?i) =
       Finite (initial_price cfg * daily_growth_factor cfg ^ nat d *
         (real_of_int (FIXED_SUPPLY cfg) / s))"
    unfolding nth initial_supply_def by blast
  from s have "fmul (price_no_burn (recs ! ?i))
         (fdiv (initial_supply cfg) (supply_before (initial_supply cfg) recs ?i)) =
       Finite (initial_price cfg * daily_growth_factor cfg ^ nat d *
         (real_of_int (FIXED_SUPPLY cfg) / s))"
    unfolding p by (simp add: initial_supply_def)
  with sim day p s pw show ?thesis by (auto simp: daily_growth_factor_def)
qed

text \<open>
  After the 365 days of \<open>growth_config\<close> the price without burn has doubled, from 3
  to 6. On day 2 of \<open>mixer_config\<close> the supply before the burn is 99,999,500.
\<close>

theorem prices_follow_formula_witness:
  "valid_config growth_config \<and> (1 :: int) \<le> 365 \<and> 365 \<le> days_to_simulate growth_config \<and>
   (\<exists>recs. simulate growth_config = Inr recs \<and> day (recs ! 364) = 365 \<and>
      price_no_burn (recs ! 364) = Finite 6 \<and>
      (\<exists>s. supply_before (initial_supply growth_config) recs 364 = Finite s \<and> 0 < s \<and>
         price_with_burn (recs ! 364) = Finite (6 * (100000000 / s)))) \<and>
   valid_config (mixer_config 2) \<and> (1 :: int) \<le> 2 \<and> 2 \<le> days_to_simulate (mixer_config 2) \<and>
   simulate (mixer_config 2) = Inr mixer_rows \<and>
   price_no_burn (mixer_rows ! 1) = Finite 1 \<and>
   supply_before (initial_supply (mixer_config 2)) mixer_rows 1 = Finite 99999500 \<and>
   price_with_burn (mixer_rows ! 1) = Finite (1 * (100000000 / 99999500))"
proof -
  have d: "(1 :: int) \<le> 365" "365 \<le> days_to_simulate growth_config"
    by (simp_all add: growth_config_def)
  have f: "initial_price growth_config * daily_growth_factor growth_config ^ 365 = 6"
    "real_of_int (FIXED_SUPPLY growth_config) = 100000000"
    by (simp_all add: growth_config_factor) (simp_all add: growth_config_def)
  from prices_follow_formula [OF growth_config_valid d]
  have g: "\<exists>recs. simulate growth_config = Inr recs \<and> day (recs ! 364) = 365 \<and>
      price_no_burn (recs ! 364) = Finite 6 \<and>
      (\<exists>s. supply_before (initial_supply growth_config) recs 364 = Finite s \<and> 0 < s \<and>
         price_with_burn (recs ! 364) = Finite (6 * (100000000 / s)))"
    by (simp add: f) blast
  have v: "valid_config (mixer_config 2)" by (simp add: mixer_config_valid)
  have e: "(1 :: int) \<le> 2" "2 \<le> days_to_simulate (mixer_config 2)"
    by (simp_all add: mixer_config_def)
  from prices_follow_formula [OF v e] mixer_config_run
  have m: "price_no_burn (mixer_rows ! 1) = Finite 1 \<and>
    supply_before (initial_supply (mixer_config 2)) mixer_rows 1 = Finite 99999500 \<and>
    price_with_burn (mixer_rows ! 1) = Finite (1 * (100000000 / 99999500))"
    by (simp add: mixer_config_def mixer_rows_def supply_before_def initial_supply_def)
  from g m v d e growth_config_valid mixer_config_run show ?thesis by blast
qed

subsection \<open>Supply\<close>

text \<open>
  Claim C2. For a valid configuration, the run returns its rows, the
  \<open>remaining_supply\<close> of the rows does not increase from day to day, and every recorded
  \<open>remaining_supply\<close> is at least 1.
\<close>

theorem remaining_supply_non_increasing:
  assumes "valid_config cfg"
  shows "\<exists>recs. simulate cfg = Inr recs \<and>
     (\<forall>i j. i \<le> j \<and> j < length recs \<longrightarrow>
        fle (remaining_supply (recs ! j)) (remaining_supply (recs ! i))) \<and>
     (\<forall>r \<in> set recs. fle (Finite 1) (remaining_supply r))"
proof -
  from simulate_total [OF assms] obtain recs where sim: "simulate cfg = Inr recs" by blast
  note run = simulate_run [OF sim]
  note F = valid_supply [OF assms]
  have "fle (remaining_supply (recs ! j)) (remaining_supply (recs ! i))"
    if "i \<le> j \<and> j < length recs" for i j
    using row_remaining_antimono [OF assms run F] that by blast
  moreover have "fle (Finite 1) (remaining_supply r)" if "r \<in> set recs" for r
  proof -
    from that obtain i where "i < length recs" "r = recs ! i" by (auto simp: in_set_conv_nth)
    with row_bounds [OF assms run F] show ?thesis by fastforce
  qed
  ultimately show ?thesis using sim by blast
qed

theorem remaining_supply_non_increasing_witness:
  "valid_config (mixer_config 2) \<and> simulate (mixer_config 2) = Inr mixer_rows \<and>
   fle (remaining_supply (mixer_rows ! 1)) (remaining_supply (mixer_rows ! 0)) \<and>
   remaining_supply (mixer_rows ! 0) = Finite 99999500 \<and>
   remaining_supply (mixer_rows ! 1) = Finite (39999600001 / 400) \<and>
   fle (Finite 1) (remaining_supply (mixer_rows ! 0)) \<and>
   fle (Finite 1) (remaining_supply (mixer_rows ! 1)) \<and>
   valid_config growth_config \<and>
   (\<exists>recs. simulate growth_config = Inr recs \<and> length recs = 365 \<and>
      fle (remaining_supply (recs ! 364)) (remaining_supply (recs ! 0)) \<and>
      fle (Finite 1) (remaining_supply (recs ! 364)))"
proof -
  have v: "valid_config (mixer_config 2)" by (simp add: mixer_config_valid)
  have l: "(0 :: nat) \<le> 1 \<and> 1 < length mixer_rows"
    "mixer_rows ! 0 \<in> set mixer_rows" "mixer_rows ! 1 \<in> set mixer_rows"
    "remaining_supply (mixer_rows ! 0) = Finite 99999500"
    "remaining_supply (mixer_rows ! 1) = Finite (39999600001 / 400)"
    by (simp_all add: mixer_rows_def)
  from remaining_supply_non_increasing [OF v] mixer_config_run l
  have m: "fle (remaining_supply (mixer_rows ! 1)) (remaining_supply (mixer_rows ! 0)) \<and>
   fle (Finite 1) (remaining_supply (mixer_rows ! 0)) \<and>
   fle (Finite 1) (remaining_supply (mixer_rows ! 1))"
    by auto
  from remaining_supply_non_increasing [OF growth_config_valid] obtain recs where
    sim: "simulate growth_config = Inr recs"
    and mono: "\<forall>i j. i \<le> j \<and> j < length recs \<longrightarrow>
        fle (remaining_supply (recs ! j)) (remaining_supply (recs ! i))"
    and low: "\<forall>r \<in> set recs. fle (Finite 1) (remaining_supply r)"
    by blast
  from simulate_length [OF sim] have len: "length recs = 365" by (simp add: growth_config_def)
  then have "recs ! 364 \<in> set recs" by simp
  with low have "fle (Finite 1) (remaining_supply (recs ! 364))" by blast
  moreover from mono len have "fle (remaining_supply (recs ! 364)) (remaining_supply (recs ! 0))"
    by simp
  ultimately have "\<exists>recs. simulate growth_config = Inr recs \<and> length recs = 365 \<and>
      fle (remaining_supply (recs ! 364)) (remaining_supply (recs ! 0)) \<and>
      fle (Finite 1) (remaining_supply (recs ! 364))"
    using sim len by blast
  with m v l mixer_config_run growth_config_valid show ?thesis by blast
qed

subsection \<open>Shape of the output\<close>

text \<open>
  Claim C4. For a valid configuration the run returns its rows, which are the rows of
  the days \<open>1 .. days_to_simulate\<close>, in this order, so there are exactly
  \<open>days_to_simulate\<close> of them; and with \<open>days_to_simulate = 0\<close> the output is the empty
  sequence, without an error, for every configuration.
\<close>

theorem rows_in_day_order:
  "(valid_config cfg \<longrightarrow>
      (\<exists>recs. simulate cfg = Inr recs \<and>
         map day recs = [1 .. days_to_simulate cfg] \<and>
         length recs = nat (days_to_simulate cfg))) \<and>
   (days_to_simulate cfg = 0 \<longrightarrow> simulate cfg = Inr [])"
proof (intro conjI impI)
  assume "valid_config cfg"
  from simulate_total [OF this] obtain recs where sim: "simulate cfg = Inr recs" by blast
  from simulate_days_day [OF simulate_run [OF sim]] simulate_length [OF sim] sim
  show "\<exists>recs. simulate cfg = Inr recs \<and>
         map day recs = [1 .. days_to_simulate cfg] \<and>
         length recs = nat (days_to_simulate cfg)"
    by blast
next
  assume "days_to_simulate cfg = 0"
  then show "simulate cfg = Inr []" by (simp add: simulate_def)
qed

theorem rows_in_day_order_witness:
  "valid_config (mixer_config 2) \<and> simulate (mixer_config 2) = Inr mixer_rows \<and>
   map day mixer_rows = [1, 2] \<and> length mixer_rows = 2 \<and>
   valid_config growth_config \<and>
   (\<exists>recs. simulate growth_config = Inr recs \<and> length recs = 365 \<and>
      day (recs ! 0) = 1 \<and> day (recs ! 364) = 365) \<and>
   days_to_simulate (mixer_config 0) = 0 \<and> simulate (mixer_config 0) = Inr []"
proof -
  have v: "valid_config (mixer_config 2)" by (simp add: mixer_config_valid)
  have z: "days_to_simulate (mixer_config 0) = 0" by (simp add: mixer_config_def)
  have d: "[1 .. days_to_simulate (mixer_config 2)] = [1, 2]"
    by (simp add: mixer_config_def upto_from_1)
  have n: "nat (days_to_simulate (mixer_config 2)) = 2" by (simp add: mixer_config_def)
  from rows_in_day_order [of "mixer_config 2"] v mixer_config_run
  have m: "map day mixer_rows = [1, 2] \<and> length mixer_rows = 2"
    unfolding d n by auto
  from rows_in_day_order [of growth_config] growth_config_valid obtain recs where
    sim: "simulate growth_config = Inr recs"
    and days: "map day recs = [1 .. days_to_simulate growth_config]"
    and len: "length recs = nat (days_to_simulate growth_config)"
    by blast
  from len have len': "length recs = 365" by (simp add: growth_config_def)
  have "day (recs ! i) = [1 .. 365] ! i" if "i < 365" for i
  proof -
    from that len' have "day (recs ! i) = map day recs ! i" by simp
    with days show ?thesis by (simp add: growth_config_def)
  qed
  from this [of 0] this [of 364] have "day (recs ! 0) = 1 \<and> day (recs ! 364) = 365" by simp
  with sim len' have "\<exists>recs. simulate growth_config = Inr recs \<and> length recs = 365 \<and>
      day (recs ! 0) = 1 \<and> day (recs ! 364) = 365"
    by blast
  with rows_in_day_order [of "mixer_config 0"] m v z mixer_config_run growth_config_valid
  show ?thesis by blast
qed

subsection \<open>Burn per service\<close>

text \<open>
  Claim C5. For a valid configuration the run returns its rows, and in every row
  \<open>daily_burned_total\<close> is the sum of the row's per-service amounts; there is one
  amount for each entry of \<open>service_volumes\<close>, in order, and it is
  \<open>(volume * burn_rate) / price_with_burn\<close>.
\<close>

theorem daily_total_is_sum_of_services:
  assumes "valid_config cfg"
  shows "\<exists>recs. simulate cfg = Inr recs \<and>
     (\<forall>r \<in> set recs.
        daily_burned_total r = sum_amounts (daily_burn_by_service r) \<and>
        map fst (daily_burn_by_service r) = map fst (service_volumes cfg) \<and>
        recorded_burns (burn_rates cfg) (service_volumes cfg) (price_with_burn r)
          (daily_burn_by_service r))"
proof -
  from simulate_total [OF assms] obtain recs where sim: "simulate cfg = Inr recs" by blast
  note run = simulate_run [OF sim]
  have "daily_burned_total r = sum_amounts (daily_burn_by_service r) \<and>
        map fst (daily_burn_by_service r) = map fst (service_volumes cfg) \<and>
        recorded_burns (burn_rates cfg) (service_volumes cfg) (price_with_burn r)
          (daily_burn_by_service r)"
    if "r \<in> set recs" for r
  proof -
    from that obtain i where i: "i < length recs" and r: "r = recs ! i"
      by (auto simp: in_set_conv_nth)
    from simulate_days_row [OF run i] have
      bs: "burn_services (burn_rates cfg) (service_volumes cfg) (price_with_burn r) (Finite 0) =
       Inr (daily_burned_total r, daily_burn_by_service r)"
      unfolding r by blast
    from burn_services_sum [OF bs] burn_services_recorded [OF bs] show ?thesis
      by (simp add: sum_amounts_def)
  qed
  with sim show ?thesis by blast
qed

text \<open>
  On day 2 of \<open>default_config\<close> the price with burn is 1000000 / 999979, and the four
  services burn 499.9895, 999.979, 199.9958 and 399.9916 tokens.
\<close>

theorem daily_total_is_sum_of_services_witness:
  "valid_config (default_config 2) \<and> simulate (default_config 2) = Inr default_rows \<and>
   default_rows ! 1 \<in> set default_rows \<and>
   price_with_burn (default_rows ! 1) = Finite (1000000 / 999979) \<and>
   daily_burn_by_service (default_rows ! 1) =
     [(''Mixer'', Finite (999979 / 2000)), (''Merch-Shop'', Finite (999979 / 1000)),
      (''eSIM'', Finite (999979 / 5000)), (''Gift Card'', Finite (999979 / 2500))] \<and>
   daily_burned_total (default_rows ! 1) = Finite (20999559 / 10000) \<and>
   daily_burned_total (default_rows ! 1) = sum_amounts (daily_burn_by_service (default_rows ! 1)) \<and>
   recorded_burns (burn_rates (default_config 2)) (service_volumes (default_config 2))
     (price_with_burn (default_rows ! 1)) (daily_burn_by_service (default_rows ! 1))"
proof -
  have v: "valid_config (default_config 2)" by (simp add: default_config_valid)
  have m: "default_rows ! 1 \<in> set default_rows"
    "price_with_burn (default_rows ! 1) = Finite (1000000 / 999979)"
    "daily_burn_by_service (default_rows ! 1) =
     [(''Mixer'', Finite (999979 / 2000)), (''Merch-Shop'', Finite (999979 / 1000)),
      (''eSIM'', Finite (999979 / 5000)), (''Gift Card'', Finite (999979 / 2500))]"
    "daily_burned_total (default_rows ! 1) = Finite (20999559 / 10000)"
    by (simp_all add: default_rows_def)
  from daily_total_is_sum_of_services [OF v] default_config_run m(1)
  have "daily_burned_total (default_rows ! 1) = sum_amounts (daily_burn_by_service (default_rows ! 1)) \<and>
   recorded_burns (burn_rates (default_config 2)) (service_volumes (default_config 2))
     (price_with_burn (default_rows ! 1)) (daily_burn_by_service (default_rows ! 1))"
    by auto
  with v m default_config_run show ?thesis by blast
qed

subsection \<open>No volume\<close>

text \<open>
  Claim C6. For a valid configuration in which every service has volume 0, whatever the
  yearly price change, the run returns its rows and every row has
  \<open>price_with_burn = price_no_burn\<close> and \<open>remaining_supply = FIXED_SUPPLY\<close>; if moreover
  the yearly price change is 0, every row has \<open>price_no_burn = initial_price\<close>.
\<close>

theorem zero_volumes_flat:
  assumes "valid_config cfg" and "zero_volumes cfg"
  shows "\<exists>recs. simulate cfg = Inr recs \<and>
     (\<forall>r \<in> set recs.
        price_with_burn r = price_no_burn r \<and>
        remaining_supply r = initial_supply cfg \<and>
        (percent_value (price_change_pct cfg) = 0 \<longrightarrow>
           price_no_burn r = Finite (initial_price cfg)))"
proof -
  from simulate_total [OF assms(1)] obtain recs where sim: "simulate cfg = Inr recs" by blast
  note run = simulate_run [OF sim]
  note F = valid_supply [OF assms(1)]
  have "price_with_burn r = price_no_burn r \<and>
        remaining_supply r = initial_supply cfg \<and>
        (percent_value (price_change_pct cfg) = 0 \<longrightarrow>
           price_no_burn r = Finite (initial_price cfg))"
    if "r \<in> set recs" for r
  proof -
    from that obtain i where i: "i < length recs" and r: "r = recs ! i"
      by (auto simp: in_set_conv_nth)
    from row_zero_volumes [OF assms run F i] have
      sb: "supply_before (Finite (real_of_int (FIXED_SUPPLY cfg))) recs i =
             Finite (real_of_int (FIXED_SUPPLY cfg))"
      and rem: "remaining_supply r = Finite (real_of_int (FIXED_SUPPLY cfg))"
      unfolding r by blast+
    from simulate_days_row [OF run i] have
      p: "price_no_burn r =
         Finite (initial_price cfg * daily_growth_factor cfg ^ nat ([1 .. days_to_simulate cfg] ! i))"
      and pw: "price_with_burn r = price_with_burn_today cfg (price_no_burn r)
         (supply_before (Finite (real_of_int (FIXED_SUPPLY cfg))) recs i)"
      unfolding r by blast+
    from F have "price_with_burn r = price_no_burn r"
      unfolding pw sb unfolding p by (simp add: price_with_burn_today_def)
    moreover have "price_no_burn r = Finite (initial_price cfg)"
      if "percent_value (price_change_pct cfg) = 0"
      unfolding p using that by (simp add: daily_growth_factor_def)
    ultimately show ?thesis using rem by (simp add: initial_supply_def)
  qed
  with sim show ?thesis by blast
qed

text \<open>
  \<open>idle_config\<close> at 100 percent for a year: on day 365 both prices are 6, twice the
  initial price, and the supply is the fixed supply. \<open>idle_config\<close> at 0 percent: the
  price stays at the initial price of 3.
\<close>

theorem zero_volumes_flat_witness:
  "valid_config (idle_config 100 365) \<and> zero_volumes (idle_config 100 365) \<and>
   (\<exists>recs. simulate (idle_config 100 365) = Inr recs \<and> length recs = 365 \<and>
      price_no_burn (recs ! 364) = Finite 6 \<and>
      price_with_burn (recs ! 364) = Finite 6 \<and>
      remaining_supply (recs ! 364) = Finite 100000000) \<and>
   valid_config (idle_config 0 2) \<and> zero_volumes (idle_config 0 2) \<and>
   percent_value (price_change_pct (idle_config 0 2)) = 0 \<and>
   (\<exists>recs. simulate (idle_config 0 2) = Inr recs \<and> length recs = 2 \<and>
      price_no_burn (recs ! 1) = Finite 3 \<and>
      price_with_burn (recs ! 1) = Finite 3 \<and>
      remaining_supply (recs ! 1) = Finite 100000000)"
proof -
  have v: "valid_config (idle_config 100 365)" "valid_config (idle_config 0 2)"
    by (simp_all add: idle_config_valid)
  have z: "zero_volumes (idle_config 100 365)" "zero_volumes (idle_config 0 2)"
    by (simp_all add: idle_config_zero)
  have c: "percent_value (price_change_pct (idle_config 0 2)) = 0"
    by (simp add: idle_config_def percent_value_percent)
  from zero_volumes_flat [OF v(1) z(1)] obtain recs where
    sim: "simulate (idle_config 100 365) = Inr recs"
    and rows: "\<forall>r \<in> set recs.
        price_with_burn r = price_no_burn r \<and>
        remaining_supply r = initial_supply (idle_config 100 365)"
    by blast
  from simulate_length [OF sim] have len: "length recs = 365" by (simp add: idle_config_def)
  then have i: "364 < length recs" by simp
  from simulate_days_row [OF simulate_run [OF sim] i]
  have "price_no_burn (recs ! 364) =
      Finite (initial_price (idle_config 100 365) * daily_growth_factor (idle_config 100 365) ^ 365)"
    by (simp add: idle_config_def)
  then have p: "price_no_burn (recs ! 364) = Finite 6"
    by (simp add: idle_config_factor) (simp add: idle_config_def)
  from i have "recs ! 364 \<in> set recs" by simp
  with rows p have "price_with_burn (recs ! 364) = Finite 6 \<and>
      remaining_supply (recs ! 364) = Finite 100000000"
    by (simp add: initial_supply_def idle_config_def)
  with sim len p have year: "\<exists>recs. simulate (idle_config 100 365) = Inr recs \<and> length recs = 365 \<and>
      price_no_burn (recs ! 364) = Finite 6 \<and>
      price_with_burn (recs ! 364) = Finite 6 \<and>
      remaining_supply (recs ! 364) = Finite 100000000"
    by blast
  from zero_volumes_flat [OF v(2) z(2)] c obtain rows2 where
    sim2: "simulate (idle_config 0 2) = Inr rows2"
    and flat: "\<forall>r \<in> set rows2.
        price_with_burn r = price_no_burn r \<and>
        remaining_supply r = initial_supply (idle_config 0 2) \<and>
        price_no_burn r = Finite (initial_price (idle_config 0 2))"
    by auto
  from simulate_length [OF sim2] have len2: "length rows2 = 2" by (simp add: idle_config_def)
  then have "rows2 ! 1 \<in> set rows2" by simp
  with flat have "price_no_burn (rows2 ! 1) = Finite 3 \<and>
      price_with_burn (rows2 ! 1) = Finite 3 \<and>
      remaining_supply (rows2 ! 1) = Finite 100000000"
    by (simp add: initial_supply_def idle_config_def)
  with sim2 len2 have "\<exists>recs. simulate (idle_config 0 2) = Inr recs \<and> length recs = 2 \<and>
      price_no_burn (recs ! 1) = Finite 3 \<and>
      price_with_burn (recs ! 1) = Finite 3 \<and>
      remaining_supply (recs ! 1) = Finite 100000000"
    by blast
  with year v z c show ?thesis by blast
qed

subsection \<open>The two scenarios\<close>

text \<open>
  Claim C7. With an initial price of 1, no price change, one day, a fixed supply of
  100,000,000 and one service with burn rate 0.02 and a volume of 25,000, the row of
  day 1 has \<open>price_no_burn = 1\<close>, \<open>price_with_burn = 1\<close>, a burn of 500 tokens for the
  service, \<open>remaining_supply = 99,999,500\<close> and \<open>cumulative_burned = 500\<close>.
\<close>

theorem mixer_scenario_day_1:
  "simulate (mixer_config 1) =
     Inr [\<lparr> day = 1, price_no_burn = Finite 1, price_with_burn = Finite 1,
            remaining_supply = Finite 99999500, cumulative_burned = Finite 500,
            daily_burned_total = Finite 500,
            daily_burn_by_service = [(''Mixer'', Finite 500)] \<rparr>]"
  by (simp add: run_defs mixer_config_def)

text \<open>
  Claim C8. With a fixed supply of 100, no price change, an initial price of 1 and one
  service with burn rate 1 whose volume burns more than 100 tokens on day 1 (a volume
  above 100, at the price 1), the run returns its rows for every number of days,
  \<open>remaining_supply\<close> is exactly 1 on day 1 and on every later day, and
  \<open>cumulative_burned\<close> is above its value of the day before on every day (above 0 on
  day 1).
\<close>

theorem clamp_scenario:
  assumes "100 < volume"
  shows "\<exists>recs. simulate (clamp_config volume n) = Inr recs \<and>
           length recs = nat n \<and>
           (\<forall>i < length recs.
              remaining_supply (recs ! i) = Finite 1 \<and>
              fless (if i = 0 then Finite 0 else cumulative_burned (recs ! (i - 1)))
                (cumulative_burned (recs ! i)))"
proof -
  from clamp_config_total [of volume n] obtain recs where
    sim: "simulate (clamp_config volume n) = Inr recs" by blast
  from simulate_length [OF sim] have len: "length recs = nat n" by (simp add: clamp_config_def)
  have "remaining_supply (recs ! i) = Finite 1 \<and>
        fless (if i = 0 then Finite 0 else cumulative_burned (recs ! (i - 1)))
          (cumulative_burned (recs ! i))"
    if i: "i < length recs" for i
  proof (cases i)
    case 0
    from clamp_config_row [OF assms sim i] assms show ?thesis by (simp add: 0)
  next
    case (Suc k)
    with i have "k < length recs" by simp
    from clamp_config_row [OF assms sim this] clamp_config_row [OF assms sim i] assms
    show ?thesis by (simp add: Suc algebra_simps)
  qed
  with sim len show ?thesis by blast
qed

theorem clamp_scenario_witness:
  "(100 :: real) < 200 \<and> simulate (clamp_config 200 3) = Inr clamp_rows \<and>
   length clamp_rows = 3 \<and>
   map remaining_supply clamp_rows = [Finite 1, Finite 1, Finite 1] \<and>
   map cumulative_burned clamp_rows = [Finite 200, Finite 202, Finite 204] \<and>
   fless (Finite 0) (cumulative_burned (clamp_rows ! 0)) \<and>
   fless (cumulative_burned (clamp_rows ! 0)) (cumulative_burned (clamp_rows ! 1)) \<and>
   fless (cumulative_burned (clamp_rows ! 1)) (cumulative_burned (clamp_rows ! 2))"
proof -
  have h: "(100 :: real) < 200" by simp
  from clamp_scenario [OF h, of 3] clamp_config_run h show ?thesis
    by (simp add: clamp_rows_def)
qed

subsection \<open>Positive supply, and the two prices compared\<close>

text \<open>
  Claim C9. For a valid configuration with \<open>FIXED_SUPPLY \<ge> 1\<close> the run returns its rows,
  and the running supply is positive at the start of every day: the test \<open>supply > 0\<close>
  of line 87 holds, \<open>price_with_burn\<close> is the value of the first branch, never the one
  of the branch for a supply that is not positive, and neither the supply, by which
  line 87 divides, nor the price with burn, by which line 92 divides, is 0.
\<close>

theorem supply_positive_no_zero_division:
  assumes "valid_config cfg" and "1 \<le> FIXED_SUPPLY cfg"
  shows "\<exists>recs. simulate cfg = Inr recs \<and>
     (\<forall>i < length recs.
        fless (Finite 0) (supply_before (initial_supply cfg) recs i) \<and>
        supply_before (initial_supply cfg) recs i \<noteq> Finite 0 \<and>
        price_with_burn (recs ! i) =
          fmul (price_no_burn (recs ! i))
            (fdiv (initial_supply cfg) (supply_before (initial_supply cfg) recs i)) \<and>
        price_with_burn (recs ! i) \<noteq> Finite 0)"
proof -
  from simulate_total [OF assms(1)] obtain recs where sim: "simulate cfg = Inr recs" by blast
  note run = simulate_run [OF sim]
  from assms(2) have F: "0 < real_of_int (FIXED_SUPPLY cfg)" by simp
  from assms(1) have ip: "0 < initial_price cfg" by (simp add: valid_config_def)
  have "fless (Finite 0) (supply_before (initial_supply cfg) recs i) \<and>
        supply_before (initial_supply cfg) recs i \<noteq> Finite 0 \<and>
        price_with_burn (recs ! i) =
          fmul (price_no_burn (recs ! i))
            (fdiv (initial_supply cfg) (supply_before (initial_supply cfg) recs i)) \<and>
        price_with_burn (recs ! i) \<noteq> Finite 0"
    if i: "i < length recs" for i
  proof -
    define p where
      "p = initial_price cfg * daily_growth_factor cfg ^ nat ([1 .. days_to_simulate cfg] ! i)"
    from row_values [OF assms(1) run F i] obtain x where
      sb: "supply_before (Finite (real_of_int (FIXED_SUPPLY cfg))) recs i = Finite x"
      and x: "0 < x"
      and pw: "price_with_burn (recs ! i) = Finite (p * (real_of_int (FIXED_SUPPLY cfg) / x))"
      unfolding p_def by blast
    from simulate_days_row [OF run i] have pn: "price_no_burn (recs ! i) = Finite p"
      unfolding p_def by blast
    from ip daily_growth_factor_pos [of cfg] have "0 < p" unfolding p_def by simp
    with x F show ?thesis unfolding initial_supply_def unfolding sb pw pn by simp
  qed
  with sim show ?thesis by blast
qed

theorem supply_positive_no_zero_division_witness:
  "valid_config (mixer_config 2) \<and> 1 \<le> FIXED_SUPPLY (mixer_config 2) \<and>
   simulate (mixer_config 2) = Inr mixer_rows \<and> 1 < length mixer_rows \<and>
   supply_before (initial_supply (mixer_config 2)) mixer_rows 1 = Finite 99999500 \<and>
   fless (Finite 0) (supply_before (initial_supply (mixer_config 2)) mixer_rows 1) \<and>
   price_with_burn (mixer_rows ! 1) = Finite (200000 / 199999) \<and>
   price_with_burn (mixer_rows ! 1) \<noteq> Finite 0 \<and>
   valid_config growth_config \<and> 1 \<le> FIXED_SUPPLY growth_config \<and>
   (\<exists>recs. simulate growth_config = Inr recs \<and> length recs = 365 \<and>
      fless (Finite 0) (supply_before (initial_supply growth_config) recs 364) \<and>
      price_with_burn (recs ! 364) \<noteq> Finite 0)"
proof -
  have v: "valid_config (mixer_config 2)" by (simp add: mixer_config_valid)
  have f: "1 \<le> FIXED_SUPPLY (mixer_config 2)" "1 \<le> FIXED_SUPPLY growth_config"
    by (simp_all add: mixer_config_def growth_config_def)
  have l: "1 < length mixer_rows"
    "supply_before (initial_supply (mixer_config 2)) mixer_rows 1 = Finite 99999500"
    "price_with_burn (mixer_rows ! 1) = Finite (200000 / 199999)"
    by (simp_all add: mixer_rows_def supply_before_def)
  from supply_positive_no_zero_division [OF v f(1)] mixer_config_run l(1)
  have m: "fless (Finite 0) (supply_before (initial_supply (mixer_config 2)) mixer_rows 1) \<and>
   price_with_burn (mixer_rows ! 1) \<noteq> Finite 0"
    by auto
  from supply_positive_no_zero_division [OF growth_config_valid f(2)] obtain recs where
    sim: "simulate growth_config = Inr recs"
    and rows: "\<forall>i < length recs.
        fless (Finite 0) (supply_before (initial_supply growth_config) recs i) \<and>
        price_with_burn (recs ! i) \<noteq> Finite 0"
    by blast
  from simulate_length [OF sim] have len: "length recs = 365" by (simp add: growth_config_def)
  with rows have "fless (Finite 0) (supply_before (initial_supply growth_config) recs 364) \<and>
      price_with_burn (recs ! 364) \<noteq> Finite 0"
    by simp
  with sim len have "\<exists>recs. simulate growth_config = Inr recs \<and> length recs = 365 \<and>
      fless (Finite 0) (supply_before (initial_supply growth_config) recs 364) \<and>
      price_with_burn (recs ! 364) \<noteq> Finite 0"
    by blast
  with m v f l mixer_config_run growth_config_valid show ?thesis by blast
qed

text \<open>
  Claim C10. For a valid configuration the run returns its rows, and on every day the
  running supply at the start of the day is at most \<open>FIXED_SUPPLY\<close>, the multiplier
  \<open>FIXED_SUPPLY / supply\<close> is at least 1, and \<open>price_with_burn \<ge> price_no_burn\<close>.
\<close>

theorem price_with_burn_at_least_no_burn:
  assumes "valid_config cfg"
  shows "\<exists>recs. simulate cfg = Inr recs \<and>
     (\<forall>i < length recs.
        fle (supply_before (initial_supply cfg) recs i) (initial_supply cfg) \<and>
        fle (Finite 1) (fdiv (initial_supply cfg) (supply_before (initial_supply cfg) recs i)) \<and>
        fle (price_no_burn (recs ! i)) (price_with_burn (recs ! i)))"
proof -
  from simulate_total [OF assms] obtain recs where sim: "simulate cfg = Inr recs" by blast
  note run = simulate_run [OF sim]
  note F = valid_supply [OF assms]
  from assms have ip: "0 < initial_price cfg" by (simp add: valid_config_def)
  have "fle (supply_before (initial_supply cfg) recs i) (initial_supply cfg) \<and>
        fle (Finite 1) (fdiv (initial_supply cfg) (supply_before (initial_supply cfg) recs i)) \<and>
        fle (price_no_burn (recs ! i)) (price_with_burn (recs ! i))"
    if i: "i < length recs" for i
  proof -
    let ?F = "real_of_int (FIXED_SUPPLY cfg)"
    let ?p = "initial_price cfg * daily_growth_factor cfg ^ nat ([1 .. days_to_simulate cfg] ! i)"
    from row_bounds [OF assms run F i] obtain x where
      sb: "supply_before (initial_supply cfg) recs i = Finite x" and x: "1 \<le> x" "x \<le> ?F"
      unfolding initial_supply_def by blast
    from F have "0 < ?F" by simp
    from row_values [OF assms run this i] sb have
      pw: "price_with_burn (recs ! i) = Finite (?p * (?F / x))"
      unfolding initial_supply_def by auto
    from simulate_days_row [OF run i] have p: "price_no_burn (recs ! i) = Finite ?p" by blast
    from x have ratio: "1 \<le> ?F / x" by simp
    from ip daily_growth_factor_pos [of cfg] have "0 \<le> ?p" by simp
    with ratio have "?p * 1 \<le> ?p * (?F / x)" by (rule mult_left_mono)
    with sb x ratio pw p show ?thesis by (simp add: initial_supply_def)
  qed
  with sim show ?thesis by blast
qed

theorem price_with_burn_at_least_no_burn_witness:
  "valid_config (mixer_config 2) \<and> simulate (mixer_config 2) = Inr mixer_rows \<and>
   1 < length mixer_rows \<and>
   supply_before (initial_supply (mixer_config 2)) mixer_rows 1 = Finite 99999500 \<and>
   initial_supply (mixer_config 2) = Finite 100000000 \<and>
   fle (supply_before (initial_supply (mixer_config 2)) mixer_rows 1)
     (initial_supply (mixer_config 2)) \<and>
   price_no_burn (mixer_rows ! 1) = Finite 1 \<and>
   price_with_burn (mixer_rows ! 1) = Finite (200000 / 199999) \<and>
   fle (price_no_burn (mixer_rows ! 1)) (price_with_burn (mixer_rows ! 1)) \<and>
   valid_config growth_config \<and>
   (\<exists>recs. simulate growth_config = Inr recs \<and> length recs = 365 \<and>
      fle (price_no_burn (recs ! 364)) (price_with_burn (recs ! 364)))"
proof -
  have v: "valid_config (mixer_config 2)" by (simp add: mixer_config_valid)
  have l: "1 < length mixer_rows"
    "supply_before (initial_supply (mixer_config 2)) mixer_rows 1 = Finite 99999500"
    "initial_supply (mixer_config 2) = Finite 100000000"
    "price_no_burn (mixer_rows ! 1) = Finite 1"
    "price_with_burn (mixer_rows ! 1) = Finite (200000 / 199999)"
    by (simp_all add: mixer_rows_def supply_before_def initial_supply_def mixer_config_def)
  from price_with_burn_at_least_no_burn [OF v] mixer_config_run l(1)
  have m: "fle (supply_before (initial_supply (mixer_config 2)) mixer_rows 1)
     (initial_supply (mixer_config 2)) \<and>
   fle (price_no_burn (mixer_rows ! 1)) (price_with_burn (mixer_rows ! 1))"
    by auto
  from price_with_burn_at_least_no_burn [OF growth_config_valid] obtain recs where
    sim: "simulate growth_config = Inr recs"
    and rows: "\<forall>i < length recs. fle (price_no_burn (recs ! i)) (price_with_burn (recs ! i))"
    by blast
  from simulate_length [OF sim] have len: "length recs = 365" by (simp add: growth_config_def)
  with rows have "fle (price_no_burn (recs ! 364)) (price_with_burn (recs ! 364))" by simp
  with sim len have "\<exists>recs. simulate growth_config = Inr recs \<and> length recs = 365 \<and>
      fle (price_no_burn (recs ! 364)) (price_with_burn (recs ! 364))"
    by blast
  with m v l mixer_config_run growth_config_valid show ?thesis by blast
qed

end
